theory Spec2Isabelle
  imports Complex_Main
begin

section \<open>Mini hydraulic power plant calculator (app.py)\<close>

text \<open>
  A shallow embedding of \<^verbatim>\<open>app.py\<close>: the six helper functions, the evaluation
  pipeline of the script (unit conversion, powers, penstock diameter) and the
  results section that the script renders.

  In the main model Python floats are idealised as the reals: \<open>*\<close> and \<open>/\<close> are
  exact, there is no rounding, overflow, infinity or NaN. Where a statement depends
  on a float being exactly zero, a second model with IEEE 754 double rounding is used
  (see the subsection on double precision). What Python raises is kept as a value:
  \<^verbatim>\<open>math.sqrt\<close> of a negative number, a float division by zero and the formatting of
  \<^verbatim>\<open>None\<close> with a float format are branches \<open>Inl\<close> of the result.
\<close>

subsection \<open>Python primitives that can raise\<close>

datatype error = ValueError | ZeroDivisionError | TypeError

text \<open>\<^verbatim>\<open>x / y\<close> on floats raises \<^verbatim>\<open>ZeroDivisionError\<close> when \<open>y\<close> is zero.\<close>

definition float_truediv :: "real \<Rightarrow> real \<Rightarrow> error + real" where
  "float_truediv x y = (if y = 0 then Inl ZeroDivisionError else Inr (x / y))"

text \<open>\<^verbatim>\<open>math.sqrt(x)\<close> raises \<^verbatim>\<open>ValueError\<close> (math domain error) when \<open>x < 0\<close>.\<close>

definition math_sqrt :: "real \<Rightarrow> error + real" where
  "math_sqrt x = (if x < 0 then Inl ValueError else Inr (sqrt x))"

text \<open>
  Truthiness of a value that is \<^verbatim>\<open>None\<close> or a float, as \<^verbatim>\<open>if D_penstock:\<close> tests it:
  \<^verbatim>\<open>None\<close> is false, a float is false exactly when it is zero.
\<close>

fun truthy :: "real option \<Rightarrow> bool" where
  "truthy None = False"
| "truthy (Some d) = (d \<noteq> 0)"

subsection \<open>Helper functions\<close>

definition cusec_to_m3s :: "real \<Rightarrow> real" where
  "cusec_to_m3s Q_cusec = Q_cusec * 0.0283168"

definition fps_to_mps :: "real \<Rightarrow> real" where
  "fps_to_mps v_fps = v_fps * 0.3048"

definition hydraulic_power :: "real \<Rightarrow> real \<Rightarrow> real \<Rightarrow> real \<Rightarrow> real" where
  "hydraulic_power rho g Q_m3s H_m = rho * g * Q_m3s * H_m"

definition actual_power :: "real \<Rightarrow> real \<Rightarrow> real \<Rightarrow> real" where
  "actual_power P_hydraulic_W eta_turbine eta_generator =
     P_hydraulic_W * eta_turbine * eta_generator"

text \<open>
  \<^verbatim>\<open>penstock_diameter\<close>: the guard on the velocity returns \<^verbatim>\<open>None\<close>; otherwise the
  quotient is formed and its square root taken, each of which may raise.
\<close>

definition penstock_diameter :: "real \<Rightarrow> real \<Rightarrow> error + real option" where
  "penstock_diameter Q_m3s v_mps =
     (if v_mps \<le> 0 then Inr None
      else (case float_truediv (4 * Q_m3s) (pi * v_mps) of
              Inl e \<Rightarrow> Inl e
            | Inr q \<Rightarrow> (case math_sqrt q of
                          Inl e \<Rightarrow> Inl e
                        | Inr D \<Rightarrow> Inr (Some D))))"

abbreviation Pelton :: string where
  "Pelton \<equiv> ''Pelton Turbine (High Head)''"

abbreviation Francis :: string where
  "Francis \<equiv> ''Francis Turbine (Medium Head)''"

abbreviation Kaplan :: string where
  "Kaplan \<equiv> ''Kaplan / Propeller Turbine (Low Head)''"

definition suggest_turbine :: "real \<Rightarrow> string" where
  "suggest_turbine H =
     (if H > 300 then Pelton
      else if 50 \<le> H \<and> H \<le> 300 then Francis
      else Kaplan)"

subsection \<open>The script: inputs, evaluation pipeline, results section\<close>

text \<open>
  The five sidebar widgets. The two sliders yield integer percentages, which the
  script divides by 100.
\<close>

record inputs =
  in_Q_cusec :: real
  in_v_fps :: real
  in_H_m :: real
  in_eta_turbine_pct :: int
  in_eta_generator_pct :: int

text \<open>The bounds that the widgets enforce on what the user can enter.\<close>

definition widget_bounds :: "inputs \<Rightarrow> bool" where
  "widget_bounds i \<longleftrightarrow>
     0 \<le> in_Q_cusec i \<and> 0.1 \<le> in_v_fps i \<and> 0 \<le> in_H_m i \<and>
     1 \<le> in_eta_turbine_pct i \<and> in_eta_turbine_pct i \<le> 100 \<and>
     1 \<le> in_eta_generator_pct i \<and> in_eta_generator_pct i \<le> 100"

text \<open>The script's variables after the line that computes \<^verbatim>\<open>D_penstock\<close>.\<close>

record results =
  res_Q_m3s :: real
  res_v_mps :: real
  res_P_hydraulic_W :: real
  res_P_actual_W :: real
  res_D_penstock :: "real option"

definition compute :: "inputs \<Rightarrow> error + results" where
  "compute i =
     (let eta_turbine = real_of_int (in_eta_turbine_pct i) / 100;
          eta_generator = real_of_int (in_eta_generator_pct i) / 100;
          Q_m3s = cusec_to_m3s (in_Q_cusec i);
          v_mps = fps_to_mps (in_v_fps i);
          rho = 1000;
          g = 9.81;
          P_hydraulic_W = hydraulic_power rho g Q_m3s (in_H_m i);
          P_actual_W = actual_power P_hydraulic_W eta_turbine eta_generator
      in case penstock_diameter Q_m3s v_mps of
           Inl e \<Rightarrow> Inl e
         | Inr D_penstock \<Rightarrow>
             Inr \<lparr>res_Q_m3s = Q_m3s, res_v_mps = v_mps,
                  res_P_hydraulic_W = P_hydraulic_W, res_P_actual_W = P_actual_W,
                  res_D_penstock = D_penstock\<rparr>)"

text \<open>
  What the results section puts on the page, one constructor per Streamlit call.
  A number that the script formats into the text (\<^verbatim>\<open>:.3f\<close>, \<^verbatim>\<open>:.2f\<close>, \<^verbatim>\<open>:.6f\<close>) is
  carried as the number itself; \<open>Success D v\<close> stands for the message
  "Recommended Diameter = D m (for velocity v m/s)". Glyphs outside ASCII in the
  literal labels are left out or spelled out.
\<close>

datatype element =
    Subheader string
  | Metric string real
  | Caption string
  | Markdown string
  | Write_MW real
  | Success real real
  | Error string
  | Info string

text \<open>
  The penstock branch: \<^verbatim>\<open>if D_penstock:\<close> chooses by truthiness; formatting
  \<^verbatim>\<open>None\<close> with \<^verbatim>\<open>:.3f\<close> would raise \<^verbatim>\<open>TypeError\<close>.
\<close>

definition penstock_display :: "real option \<Rightarrow> real \<Rightarrow> error + element" where
  "penstock_display D_penstock v_mps =
     (if truthy D_penstock
      then (case D_penstock of
              Some D \<Rightarrow> Inr (Success D v_mps)
            | None \<Rightarrow> Inl TypeError)
      else Inr (Error ''Invalid velocity selected.''))"

definition render :: "inputs \<Rightarrow> results \<Rightarrow> error + element list" where
  "render i r =
     (case penstock_display (res_D_penstock r) (res_v_mps r) of
        Inl e \<Rightarrow> Inl e
      | Inr penstock \<Rightarrow>
          Inr [Subheader ''Results'',
               Metric ''Hydraulic Power (theoretical)'' (res_P_hydraulic_W r / 1000),
               Caption ''P = rho g Q H'',
               Metric ''Electrical Output Power'' (res_P_actual_W r / 1000),
               Caption ''P_out = P x eta_t x eta_g'',
               Markdown ''### Electrical Power in MW'',
               Write_MW (res_P_actual_W r / 1000000),
               Markdown ''### Penstock Pipe Diameter'',
               penstock,
               Markdown ''### Suggested Turbine Type'',
               Info (suggest_turbine (in_H_m i))])"

definition app :: "inputs \<Rightarrow> error + element list" where
  "app i = (case compute i of Inl e \<Rightarrow> Inl e | Inr r \<Rightarrow> render i r)"


subsection \<open>Concrete inputs\<close>

text \<open>The default values of the five widgets.\<close>

definition scenario1 :: inputs where
  "scenario1 = \<lparr>in_Q_cusec = 100, in_v_fps = 6, in_H_m = 20,
                 in_eta_turbine_pct = 85, in_eta_generator_pct = 90\<rparr>"

text \<open>The defaults with the discharge set to its minimum, zero.\<close>

definition zero_discharge :: inputs where
  "zero_discharge = \<lparr>in_Q_cusec = 0, in_v_fps = 6, in_H_m = 20,
                      in_eta_turbine_pct = 85, in_eta_generator_pct = 90\<rparr>"

text \<open>A dry high-head site: no discharge, a head of 350 m.\<close>

definition dry_high_head :: inputs where
  "dry_high_head = \<lparr>in_Q_cusec = 0, in_v_fps = 10, in_H_m = 350,
                     in_eta_turbine_pct = 50, in_eta_generator_pct = 50\<rparr>"

subsection \<open>Double precision\<close>

text \<open>
  Whether a result is exactly zero depends on rounding: a Python float is an IEEE 754
  double, and a product or quotient that is positive in exact arithmetic can round to
  \<^verbatim>\<open>0.0\<close>. For the statements that hinge on this, \<open>hydraulic_power\<close> and
  \<open>penstock_diameter\<close> are modelled a second time with every operation rounded.

  A double is a finite value, an infinity or NaN. The sign of a zero is not kept: in
  Python \<^verbatim>\<open>-0.0\<close> equals \<^verbatim>\<open>0.0\<close>, is false as a condition, raises as a divisor
  and has the square root \<^verbatim>\<open>-0.0\<close>, so no comparison here can observe it.
\<close>

datatype double = Fin real | PInf | NInf | NaN

text \<open>Rounding to the nearest integer, ties to the even one.\<close>

definition round_half_even :: "real \<Rightarrow> int" where
  "round_half_even y =
     (let n = \<lfloor>y\<rfloor>; d = y - of_int n
      in if d < 1 / 2 then n
         else if 1 / 2 < d then n + 1
         else if even n then n else n + 1)"

text \<open>
  The binary exponent of \<open>x\<close>, held at \<open>-1022\<close> in the subnormal range; doubles
  near \<open>x\<close> are spaced \<open>2 powi (binade x - 52)\<close> apart.
\<close>

definition binade :: "real \<Rightarrow> int" where
  "binade x = (if \<bar>x\<bar> < 2 powi (- 1022) then - 1022 else \<lfloor>log 2 \<bar>x\<bar>\<rfloor>)"

text \<open>
  Rounding a real to the nearest double, ties to even: 53 significant bits, gradual
  underflow, and overflow to an infinity from \<open>2 powi 1024\<close> on.
\<close>

definition round_double :: "real \<Rightarrow> double" where
  "round_double x =
     (let u = 2 powi (binade x - 52);
          y = of_int (round_half_even (x / u)) * u
      in if 2 powi 1024 \<le> \<bar>y\<bar> then (if 0 < x then PInf else NInf) else Fin y)"

definition is_double :: "real \<Rightarrow> bool" where
  "is_double x \<longleftrightarrow> round_double x = Fin x"

text \<open>\<^verbatim>\<open>x * y\<close> on floats; it never raises.\<close>

fun fmul :: "double \<Rightarrow> double \<Rightarrow> double" where
  "fmul (Fin x) (Fin y) = round_double (x * y)"
| "fmul (Fin x) PInf = (if x = 0 then NaN else if 0 < x then PInf else NInf)"
| "fmul (Fin x) NInf = (if x = 0 then NaN else if 0 < x then NInf else PInf)"
| "fmul PInf (Fin y) = (if y = 0 then NaN else if 0 < y then PInf else NInf)"
| "fmul NInf (Fin y) = (if y = 0 then NaN else if 0 < y then NInf else PInf)"
| "fmul PInf PInf = PInf"
| "fmul PInf NInf = NInf"
| "fmul NInf PInf = NInf"
| "fmul NInf NInf = PInf"
| "fmul NaN _ = NaN"
| "fmul _ NaN = NaN"

text \<open>
  \<^verbatim>\<open>x / y\<close> on floats: a zero divisor raises \<^verbatim>\<open>ZeroDivisionError\<close> whatever the
  dividend; otherwise the quotient follows IEEE 754.
\<close>

fun fdiv :: "double \<Rightarrow> double \<Rightarrow> error + double" where
  "fdiv a (Fin y) =
     (if y = 0 then Inl ZeroDivisionError
      else (case a of
              Fin x \<Rightarrow> Inr (round_double (x / y))
            | PInf \<Rightarrow> Inr (if 0 < y then PInf else NInf)
            | NInf \<Rightarrow> Inr (if 0 < y then NInf else PInf)
            | NaN \<Rightarrow> Inr NaN))"
| "fdiv (Fin x) PInf = Inr (Fin 0)"
| "fdiv (Fin x) NInf = Inr (Fin 0)"
| "fdiv _ _ = Inr NaN"

text \<open>
  \<^verbatim>\<open>math.sqrt\<close>: a negative argument raises \<^verbatim>\<open>ValueError\<close>, NaN is passed
  through, and the root of a finite double is correctly rounded.
\<close>

fun fsqrt :: "double \<Rightarrow> error + double" where
  "fsqrt (Fin x) = (if x < 0 then Inl ValueError else Inr (round_double (sqrt x)))"
| "fsqrt PInf = Inr PInf"
| "fsqrt NInf = Inl ValueError"
| "fsqrt NaN = Inr NaN"

text \<open>\<^verbatim>\<open>a <= b\<close> on floats; every comparison with NaN is false.\<close>

fun fle :: "double \<Rightarrow> double \<Rightarrow> bool" where
  "fle NaN _ = False"
| "fle _ NaN = False"
| "fle (Fin x) (Fin y) = (x \<le> y)"
| "fle NInf _ = True"
| "fle _ PInf = True"
| "fle _ _ = False"

text \<open>\<^verbatim>\<open>math.pi\<close>, the double nearest to \<open>pi\<close>.\<close>

definition pi_double :: real where
  "pi_double = 884279719003555 / 2 ^ 48"

definition math_pi :: double where
  "math_pi = Fin pi_double"

text \<open>
  \<^verbatim>\<open>penstock_diameter\<close> on doubles. The integer literals \<^verbatim>\<open>0\<close> and \<^verbatim>\<open>4\<close> are
  exact as doubles.
\<close>

definition penstock_diameter_f64 :: "double \<Rightarrow> double \<Rightarrow> error + double option" where
  "penstock_diameter_f64 Q_m3s v_mps =
     (if fle v_mps (Fin 0) then Inr None
      else (case fdiv (fmul (Fin 4) Q_m3s) (fmul math_pi v_mps) of
              Inl e \<Rightarrow> Inl e
            | Inr q \<Rightarrow> (case fsqrt q of
                          Inl e \<Rightarrow> Inl e
                        | Inr D \<Rightarrow> Inr (Some D))))"

text \<open>
  \<^verbatim>\<open>hydraulic_power\<close> on doubles; Python multiplies from the left. The script passes
  \<open>Fin 1000\<close> for \<^verbatim>\<open>rho\<close> and \<open>round_double 9.81\<close>, the value of the literal
  \<^verbatim>\<open>9.81\<close>, for \<^verbatim>\<open>g\<close>.
\<close>

definition hydraulic_power_f64 :: "double \<Rightarrow> double \<Rightarrow> double \<Rightarrow> double \<Rightarrow> double" where
  "hydraulic_power_f64 rho g Q_m3s H_m = fmul (fmul (fmul rho g) Q_m3s) H_m"

text \<open>The smallest positive double, and a small normal double.\<close>

definition denorm_min :: real where
  "denorm_min = 2 powi (- 1074)"

definition tiny :: real where
  "tiny = 2 powi (- 600)"

section \<open>Auxiliary facts\<close>

subsection \<open>Bounds on \<open>pi\<close>\<close>

text \<open>
  Machin's formula and two polynomial bounds on \<open>arctan\<close>, each obtained from the
  sign of a derivative, enclose \<open>pi\<close> tightly enough to round the penstock diameter
  of the default inputs to three decimals.
\<close>

lemma one_plus_sq_pos: "0 < 1 + (t::real)\<^sup>2"
  by (simp add: add_pos_nonneg)

lemma arctan_lower_cubic:
  fixes x :: real
  assumes "0 \<le> x"
  shows "x - x ^ 3 / 3 \<le> arctan x"
proof -
  let ?f = "\<lambda>t::real. arctan t - (t - t ^ 3 / 3)"
  have "?f 0 \<le> ?f x"
  proof (rule DERIV_nonneg_imp_nondecreasing [OF assms])
    fix t :: real
    have d: "(?f has_real_derivative (inverse (1 + t\<^sup>2) - (1 - t\<^sup>2))) (at t)"
      by (auto intro!: derivative_eq_intros)
    have "1 + t\<^sup>2 \<noteq> 0" using one_plus_sq_pos [of t] by simp
    then have "inverse (1 + t\<^sup>2) - (1 - t\<^sup>2) = t ^ 4 / (1 + t\<^sup>2)"
      by (simp add: field_simps power2_eq_square power4_eq_xxxx)
    moreover have "0 \<le> t ^ 4 / (1 + t\<^sup>2)"
      using one_plus_sq_pos [of t] by (intro divide_nonneg_nonneg) simp_all
    ultimately have "0 \<le> inverse (1 + t\<^sup>2) - (1 - t\<^sup>2)" by simp
    with d show "\<exists>y. (?f has_real_derivative y) (at t) \<and> 0 \<le> y"
      by blast
  qed
  then show ?thesis by simp
qed

lemma arctan_upper_linear:
  fixes x :: real
  assumes "0 \<le> x"
  shows "arctan x \<le> x"
proof -
  let ?f = "\<lambda>t::real. t - arctan t"
  have "?f 0 \<le> ?f x"
  proof (rule DERIV_nonneg_imp_nondecreasing [OF assms])
    fix t :: real
    have d: "(?f has_real_derivative (1 - inverse (1 + t\<^sup>2))) (at t)"
      by (auto intro!: derivative_eq_intros)
    have "inverse (1 + t\<^sup>2) \<le> 1"
      by (rule inverse_le_1_iff [THEN iffD2]) simp
    then have "0 \<le> 1 - inverse (1 + t\<^sup>2)" by simp
    with d show "\<exists>y. (?f has_real_derivative y) (at t) \<and> 0 \<le> y"
      by blast
  qed
  then show ?thesis by simp
qed

lemma arctan_upper_quintic:
  fixes x :: real
  assumes "0 \<le> x"
  shows "arctan x \<le> x - x ^ 3 / 3 + x ^ 5 / 5"
proof -
  let ?f = "\<lambda>t::real. (t - t ^ 3 / 3 + t ^ 5 / 5) - arctan t"
  have "?f 0 \<le> ?f x"
  proof (rule DERIV_nonneg_imp_nondecreasing [OF assms])
    fix t :: real
    have d: "(?f has_real_derivative ((1 - t\<^sup>2 + t ^ 4) - inverse (1 + t\<^sup>2))) (at t)"
      by (auto intro!: derivative_eq_intros)
    have "(1 - t\<^sup>2 + t ^ 4) * (1 + t\<^sup>2) = 1 + t ^ 6"
      by (simp add: algebra_simps power2_eq_square power_numeral_reduce)
    moreover have "0 \<le> t ^ 6" by simp
    ultimately have "1 \<le> (1 - t\<^sup>2 + t ^ 4) * (1 + t\<^sup>2)" by simp
    then have "1 / (1 + t\<^sup>2) \<le> 1 - t\<^sup>2 + t ^ 4"
      using one_plus_sq_pos [of t] by (simp only: pos_divide_le_eq)
    then have "0 \<le> (1 - t\<^sup>2 + t ^ 4) - inverse (1 + t\<^sup>2)"
      by (simp add: inverse_eq_divide)
    with d show "\<exists>y. (?f has_real_derivative y) (at t) \<and> 0 \<le> y"
      by blast
  qed
  then show ?thesis by simp
qed

lemma machin_mono:
  fixes a b l u :: real
  assumes "l \<le> a" "b \<le> u"
  shows "16 * l - 4 * u \<le> 16 * a - 4 * b"
  using assms by linarith

lemma pi_lower: "3.1405 < pi"
proof -
  have m: "pi = 16 * arctan (1 / 5) - 4 * arctan (1 / 239)"
    using machin by simp
  have l5: "(1/5) - (1/5) ^ 3 / 3 \<le> arctan (1 / 5 :: real)"
    by (rule arctan_lower_cubic) simp
  have u239: "arctan (1 / 239 :: real) \<le> 1 / 239"
    by (rule arctan_upper_linear) simp
  have "(3.1405::real) < 16 * ((1/5) - (1/5) ^ 3 / 3) - 4 * (1 / 239)"
    by (simp add: power3_eq_cube)
  also have "\<dots> \<le> 16 * arctan (1 / 5) - 4 * arctan (1 / 239)"
    by (rule machin_mono [OF l5 u239])
  finally show ?thesis using m by simp
qed

lemma pi_upper: "pi < 3.1417"
proof -
  have m: "pi = 16 * arctan (1 / 5) - 4 * arctan (1 / 239)"
    using machin by simp
  have u5: "arctan (1 / 5 :: real) \<le> (1/5) - (1/5) ^ 3 / 3 + (1/5) ^ 5 / 5"
    by (rule arctan_upper_quintic) simp
  have l239: "(1/239) - (1/239) ^ 3 / 3 \<le> arctan (1 / 239 :: real)"
    by (rule arctan_lower_cubic) simp
  have "16 * arctan (1 / 5) - 4 * arctan (1 / 239)
          \<le> 16 * ((1/5) - (1/5) ^ 3 / 3 + (1/5) ^ 5 / 5) - 4 * ((1/239) - (1/239) ^ 3 / 3 :: real)"
    by (rule machin_mono [OF u5 l239])
  also have "\<dots> < 3.1417"
    by (simp add: power3_eq_cube power_numeral_reduce)
  finally show ?thesis using m by simp
qed

lemma scenario1_diameter_bounds:
  "1.404 < sqrt (4 * 2.83168 / (pi * 1.8288))"
  "sqrt (4 * 2.83168 / (pi * 1.8288)) < 1.4045"
proof -
  have p: "0 < pi * 1.8288" by simp
  have "(1.404::real)\<^sup>2 * (pi * 1.8288) < 1.404\<^sup>2 * (3.1417 * 1.8288)"
    using pi_upper by simp
  also have "\<dots> < 4 * 2.83168" by (simp add: power2_eq_square)
  finally have "(1.404::real)\<^sup>2 < 4 * 2.83168 / (pi * 1.8288)"
    using p by (simp only: pos_less_divide_eq)
  then show "1.404 < sqrt (4 * 2.83168 / (pi * 1.8288))"
    by (rule real_less_rsqrt)
  have "(4 * 2.83168 :: real) < 1.4045\<^sup>2 * (3.1405 * 1.8288)"
    by (simp add: power2_eq_square)
  also have "\<dots> < 1.4045\<^sup>2 * (pi * 1.8288)"
    using pi_lower by simp
  finally have "4 * 2.83168 / (pi * 1.8288) < (1.4045::real)\<^sup>2"
    using p by (simp only: pos_divide_less_eq)
  then show "sqrt (4 * 2.83168 / (pi * 1.8288)) < 1.4045"
    by (intro real_less_lsqrt) simp_all
qed

subsection \<open>The three cases of \<open>penstock_diameter\<close>\<close>

lemma penstock_diameter_guard: "v \<le> 0 \<Longrightarrow> penstock_diameter Q v = Inr None"
  by (simp add: penstock_diameter_def)

lemma penstock_diameter_nonneg_discharge:
  assumes "0 < v" "0 \<le> Q"
  shows "penstock_diameter Q v = Inr (Some (sqrt (4 * Q / (pi * v))))"
proof -
  have "pi * v \<noteq> 0" using assms by simp
  moreover have "\<not> 4 * Q / (pi * v) < 0"
    using assms by (simp add: not_less)
  ultimately show ?thesis
    using assms by (simp add: penstock_diameter_def float_truediv_def math_sqrt_def)
qed

lemma penstock_diameter_negative_discharge:
  assumes "0 < v" "Q < 0"
  shows "penstock_diameter Q v = Inl ValueError"
proof -
  have "pi * v \<noteq> 0" using assms by simp
  moreover have "4 * Q / (pi * v) < 0"
    using assms by (simp add: divide_neg_pos)
  ultimately show ?thesis
    using assms by (simp add: penstock_diameter_def float_truediv_def math_sqrt_def)
qed

subsection \<open>The pipeline and the results section\<close>

lemma penstock_display_cases:
  "penstock_display D v =
     (case D of
        None \<Rightarrow> Inr (Error ''Invalid velocity selected.'')
      | Some d \<Rightarrow>
          if d = 0 then Inr (Error ''Invalid velocity selected.'') else Inr (Success d v))"
  by (cases D) (simp_all add: penstock_display_def)

lemma render_total: "\<exists>els. render i r = Inr els"
  by (simp add: render_def penstock_display_cases split: option.split)

lemma compute_nonneg_discharge:
  assumes "0 < in_v_fps i" "0 \<le> in_Q_cusec i"
  shows "compute i =
     Inr \<lparr>res_Q_m3s = cusec_to_m3s (in_Q_cusec i),
          res_v_mps = fps_to_mps (in_v_fps i),
          res_P_hydraulic_W =
            hydraulic_power 1000 9.81 (cusec_to_m3s (in_Q_cusec i)) (in_H_m i),
          res_P_actual_W =
            actual_power (hydraulic_power 1000 9.81 (cusec_to_m3s (in_Q_cusec i)) (in_H_m i))
              (real_of_int (in_eta_turbine_pct i) / 100)
              (real_of_int (in_eta_generator_pct i) / 100),
          res_D_penstock =
            Some (sqrt (4 * cusec_to_m3s (in_Q_cusec i) / (pi * fps_to_mps (in_v_fps i))))\<rparr>"
proof -
  have "0 < fps_to_mps (in_v_fps i)" "0 \<le> cusec_to_m3s (in_Q_cusec i)"
    using assms by (simp_all add: fps_to_mps_def cusec_to_m3s_def)
  then show ?thesis
    by (simp add: compute_def Let_def penstock_diameter_nonneg_discharge)
qed

lemma compute_guard:
  assumes "in_v_fps i \<le> 0"
  shows "compute i =
     Inr \<lparr>res_Q_m3s = cusec_to_m3s (in_Q_cusec i),
          res_v_mps = fps_to_mps (in_v_fps i),
          res_P_hydraulic_W =
            hydraulic_power 1000 9.81 (cusec_to_m3s (in_Q_cusec i)) (in_H_m i),
          res_P_actual_W =
            actual_power (hydraulic_power 1000 9.81 (cusec_to_m3s (in_Q_cusec i)) (in_H_m i))
              (real_of_int (in_eta_turbine_pct i) / 100)
              (real_of_int (in_eta_generator_pct i) / 100),
          res_D_penstock = None\<rparr>"
proof -
  have "fps_to_mps (in_v_fps i) \<le> 0"
    using assms by (simp add: fps_to_mps_def mult_le_0_iff)
  then show ?thesis
    by (simp add: compute_def Let_def penstock_diameter_guard)
qed

lemma compute_powers:
  "compute i = Inr r \<Longrightarrow>
     res_P_hydraulic_W r =
       hydraulic_power 1000 9.81 (cusec_to_m3s (in_Q_cusec i)) (in_H_m i) \<and>
     res_P_actual_W r =
       actual_power (res_P_hydraulic_W r)
         (real_of_int (in_eta_turbine_pct i) / 100)
         (real_of_int (in_eta_generator_pct i) / 100)"
  by (auto simp: compute_def Let_def split: sum.splits)

lemma efficiency_product_le:
  fixes P :: real
  assumes "0 \<le> P" "0 < a" "a \<le> 1" "0 < b" "b \<le> 1"
  shows "P * a * b \<le> P"
proof -
  have "P * a \<le> P * 1" using assms by (intro mult_left_mono) simp_all
  moreover have "P * a * b \<le> (P * a) * 1" using assms by (intro mult_left_mono) simp_all
  ultimately show ?thesis by simp
qed

text \<open>
  Within the bounds of the widgets the hydraulic power is not negative, and the
  electrical power does not exceed it.
\<close>

lemma pipeline_electrical_le_hydraulic:
  assumes "widget_bounds i" "compute i = Inr r"
  shows "0 \<le> res_P_hydraulic_W r \<and> res_P_actual_W r \<le> res_P_hydraulic_W r"
proof -
  have "0 \<le> in_Q_cusec i" "0 \<le> in_H_m i"
    using assms(1) by (simp_all add: widget_bounds_def)
  then have "0 \<le> hydraulic_power 1000 9.81 (cusec_to_m3s (in_Q_cusec i)) (in_H_m i)"
    by (simp add: hydraulic_power_def cusec_to_m3s_def)
  then have h: "0 \<le> res_P_hydraulic_W r"
    using compute_powers [OF assms(2)] by simp
  have "res_P_actual_W r =
          res_P_hydraulic_W r * (real_of_int (in_eta_turbine_pct i) / 100)
            * (real_of_int (in_eta_generator_pct i) / 100)"
    using compute_powers [OF assms(2)] by (simp add: actual_power_def)
  moreover have "res_P_hydraulic_W r * (real_of_int (in_eta_turbine_pct i) / 100)
              * (real_of_int (in_eta_generator_pct i) / 100) \<le> res_P_hydraulic_W r"
    using assms(1) h by (intro efficiency_product_le) (simp_all add: widget_bounds_def)
  ultimately show ?thesis using h by simp
qed

text \<open>
  The penstock message where the truthiness test agrees with the velocity guard: a
  positive discharge with a positive velocity shows the diameter and the velocity
  used, and a velocity that is at most zero shows the error message; the other
  results are on the page either way.
\<close>

lemma positive_discharge_shows_diameter:
  assumes "0 < in_v_fps i" "0 < in_Q_cusec i"
  shows "\<exists>P_h P_a D. 0 < D \<and>
     D = sqrt (4 * cusec_to_m3s (in_Q_cusec i) / (pi * fps_to_mps (in_v_fps i))) \<and>
     app i =
       Inr [Subheader ''Results'',
            Metric ''Hydraulic Power (theoretical)'' (P_h / 1000),
            Caption ''P = rho g Q H'',
            Metric ''Electrical Output Power'' (P_a / 1000),
            Caption ''P_out = P x eta_t x eta_g'',
            Markdown ''### Electrical Power in MW'',
            Write_MW (P_a / 1000000),
            Markdown ''### Penstock Pipe Diameter'',
            Success D (fps_to_mps (in_v_fps i)),
            Markdown ''### Suggested Turbine Type'',
            Info (suggest_turbine (in_H_m i))]"
proof -
  let ?D = "sqrt (4 * cusec_to_m3s (in_Q_cusec i) / (pi * fps_to_mps (in_v_fps i)))"
  let ?P_h = "hydraulic_power 1000 9.81 (cusec_to_m3s (in_Q_cusec i)) (in_H_m i)"
  let ?P_a = "actual_power ?P_h (real_of_int (in_eta_turbine_pct i) / 100)
                (real_of_int (in_eta_generator_pct i) / 100)"
  have "0 < 4 * cusec_to_m3s (in_Q_cusec i) / (pi * fps_to_mps (in_v_fps i))"
    using assms by (simp add: cusec_to_m3s_def fps_to_mps_def)
  then have pos: "0 < ?D"
    by (simp only: real_sqrt_gt_0_iff)
  then have nz: "?D \<noteq> 0" by (rule less_imp_neq [THEN not_sym])
  have "compute i =
     Inr \<lparr>res_Q_m3s = cusec_to_m3s (in_Q_cusec i),
          res_v_mps = fps_to_mps (in_v_fps i),
          res_P_hydraulic_W = ?P_h, res_P_actual_W = ?P_a,
          res_D_penstock = Some ?D\<rparr>"
    using compute_nonneg_discharge [of i] assms by simp
  then have "app i =
       Inr [Subheader ''Results'',
            Metric ''Hydraulic Power (theoretical)'' (?P_h / 1000),
            Caption ''P = rho g Q H'',
            Metric ''Electrical Output Power'' (?P_a / 1000),
            Caption ''P_out = P x eta_t x eta_g'',
            Markdown ''### Electrical Power in MW'',
            Write_MW (?P_a / 1000000),
            Markdown ''### Penstock Pipe Diameter'',
            Success ?D (fps_to_mps (in_v_fps i)),
            Markdown ''### Suggested Turbine Type'',
            Info (suggest_turbine (in_H_m i))]"
    using nz by (simp add: app_def render_def penstock_display_cases)
  with pos show ?thesis by blast
qed

lemma nonpositive_velocity_shows_error:
  assumes "in_v_fps i \<le> 0"
  shows "\<exists>P_h P_a.
     app i =
       Inr [Subheader ''Results'',
            Metric ''Hydraulic Power (theoretical)'' (P_h / 1000),
            Caption ''P = rho g Q H'',
            Metric ''Electrical Output Power'' (P_a / 1000),
            Caption ''P_out = P x eta_t x eta_g'',
            Markdown ''### Electrical Power in MW'',
            Write_MW (P_a / 1000000),
            Markdown ''### Penstock Pipe Diameter'',
            Error ''Invalid velocity selected.'',
            Markdown ''### Suggested Turbine Type'',
            Info (suggest_turbine (in_H_m i))]"
proof -
  let ?P_h = "hydraulic_power 1000 9.81 (cusec_to_m3s (in_Q_cusec i)) (in_H_m i)"
  let ?P_a = "actual_power ?P_h (real_of_int (in_eta_turbine_pct i) / 100)
                (real_of_int (in_eta_generator_pct i) / 100)"
  have "app i =
       Inr [Subheader ''Results'',
            Metric ''Hydraulic Power (theoretical)'' (?P_h / 1000),
            Caption ''P = rho g Q H'',
            Metric ''Electrical Output Power'' (?P_a / 1000),
            Caption ''P_out = P x eta_t x eta_g'',
            Markdown ''### Electrical Power in MW'',
            Write_MW (?P_a / 1000000),
            Markdown ''### Penstock Pipe Diameter'',
            Error ''Invalid velocity selected.'',
            Markdown ''### Suggested Turbine Type'',
            Info (suggest_turbine (in_H_m i))]"
    using compute_guard [OF assms]
    by (simp add: app_def render_def penstock_display_cases)
  then show ?thesis by blast
qed

subsection \<open>Exact arithmetic\<close>

text \<open>
  What the real-valued model gives where no rounding takes place: a positive diameter
  for a positive discharge, and a hydraulic power that vanishes only with the
  discharge or the head. The double model below shows where rounding departs from
  this.
\<close>

lemma penstock_diameter_exact:
  assumes "0 < v_mps" "0 \<le> Q_m3s"
  shows "penstock_diameter Q_m3s v_mps = Inr (Some (sqrt (4 * Q_m3s / (pi * v_mps)))) \<and>
         0 \<le> sqrt (4 * Q_m3s / (pi * v_mps)) \<and>
         (sqrt (4 * Q_m3s / (pi * v_mps)) = 0 \<longleftrightarrow> Q_m3s = 0)"
  using assms by (simp add: penstock_diameter_nonneg_discharge)

lemma hydraulic_power_exact:
  assumes "0 \<le> Q_m3s" "0 \<le> H_m"
  shows "0 \<le> hydraulic_power 1000 9.81 Q_m3s H_m \<and>
         (hydraulic_power 1000 9.81 Q_m3s H_m = 0 \<longleftrightarrow> Q_m3s = 0 \<or> H_m = 0)"
  using assms by (simp add: hydraulic_power_def)

subsection \<open>Rounding to double precision\<close>

text \<open>
  The exponent chosen by \<open>binade\<close>, and what rounding keeps: the sign, and every
  value from the smallest positive double upwards stays at least that large. Only
  values below it can round to zero.
\<close>

lemma round_half_even_ge: "of_int n \<le> y \<Longrightarrow> n \<le> round_half_even y"
proof -
  assume "of_int n \<le> y"
  then have "n \<le> \<lfloor>y\<rfloor>" by (simp add: le_floor_iff)
  moreover have "\<lfloor>y\<rfloor> \<le> round_half_even y"
    by (simp add: round_half_even_def Let_def)
  ultimately show ?thesis by simp
qed

lemma round_half_even_of_int: "round_half_even (of_int n) = n"
  by (simp add: round_half_even_def Let_def)

lemma round_half_even_0: "round_half_even 0 = 0"
  using round_half_even_of_int [of 0] by simp

lemma powi_le_iff_log: "0 < x \<Longrightarrow> 2 powi k \<le> x \<longleftrightarrow> of_int k \<le> log 2 x"
  using powr_real_of_int' [of 2 k] by (simp add: le_log_iff)

lemma powi_floor_log_le: "0 < x \<Longrightarrow> 2 powi \<lfloor>log 2 x\<rfloor> \<le> x"
  by (simp only: powi_le_iff_log of_int_floor_le)

lemma floor_log_eq:
  assumes "2 powi k \<le> x" "x < 2 powi (k + 1)"
  shows "\<lfloor>log 2 x\<rfloor> = k"
proof -
  have "(0::real) < 2 powi k" by simp
  with assms(1) have pos: "0 < x" by linarith
  have "2 powr (of_int k) \<le> x" "x < 2 powr (of_int k + 1)"
    using assms powr_real_of_int' [of 2 k] powr_real_of_int' [of 2 "k + 1"] by simp_all
  then show ?thesis
    using pos by (simp add: floor_log_eq_powr_iff)
qed

lemma binade_ge: "- 1022 \<le> binade x"
proof (cases "\<bar>x\<bar> < 2 powi (- 1022)")
  case True
  then show ?thesis by (simp only: binade_def if_True order_refl)
next
  case False
  then have x: "2 powi (- 1022) \<le> \<bar>x\<bar>" by (simp only: not_less)
  have "(0::real) < 2 powi (- 1022)" by (rule zero_less_power_int) simp
  with x have pos: "0 < \<bar>x\<bar>" by linarith
  have "of_int (- 1022) \<le> log 2 \<bar>x\<bar>"
    using x by (simp only: powi_le_iff_log [OF pos])
  then have "- 1022 \<le> \<lfloor>log 2 \<bar>x\<bar>\<rfloor>" by (simp only: le_floor_iff)
  with False show ?thesis by (simp only: binade_def if_False)
qed

lemma binade_le: "2 powi (- 1022) \<le> \<bar>x\<bar> \<Longrightarrow> 2 powi (binade x) \<le> \<bar>x\<bar>"
proof -
  assume x: "2 powi (- 1022) \<le> \<bar>x\<bar>"
  have "(0::real) < 2 powi (- 1022)" by (rule zero_less_power_int) simp
  with x have pos: "0 < \<bar>x\<bar>" by linarith
  from x have "\<not> \<bar>x\<bar> < 2 powi (- 1022)" by (simp only: not_less)
  then have "binade x = \<lfloor>log 2 \<bar>x\<bar>\<rfloor>" by (simp only: binade_def if_False)
  then show ?thesis using powi_floor_log_le [OF pos] by simp
qed

lemma binade_eq:
  assumes "2 powi k \<le> \<bar>x\<bar>" "\<bar>x\<bar> < 2 powi (k + 1)" "- 1022 \<le> k"
  shows "binade x = k"
proof -
  have "(2::real) powi (- 1022) \<le> 2 powi k"
    using assms(3) by (intro power_int_increasing) simp_all
  with assms(1) have "\<not> \<bar>x\<bar> < 2 powi (- 1022)" by linarith
  then have "binade x = \<lfloor>log 2 \<bar>x\<bar>\<rfloor>" by (simp only: binade_def if_False)
  then show ?thesis using floor_log_eq [OF assms(1,2)] by simp
qed

lemma binade_subnormal: "\<bar>x\<bar> < 2 powi (- 1022) \<Longrightarrow> binade x = - 1022"
  by (simp only: binade_def if_True)

lemma ulp_pos: "(0::real) < 2 powi (binade x - 52)"
  by (rule zero_less_power_int) simp

lemma ulp_ge_min: "(2::real) powi (- 1074) \<le> 2 powi (binade x - 52)"
  using binade_ge [of x] by (intro power_int_increasing) simp_all

lemma ulp_le_abs:
  assumes "2 powi (- 1074) \<le> \<bar>x\<bar>"
  shows "2 powi (binade x - 52) \<le> \<bar>x\<bar>"
proof (cases "\<bar>x\<bar> < 2 powi (- 1022)")
  case True
  then have "binade x - 52 = - 1074" by (simp only: binade_subnormal)
  with assms show ?thesis by (simp only:)
next
  case False
  then have "2 powi (- 1022) \<le> \<bar>x\<bar>" by (simp only: not_less)
  then have "2 powi (binade x) \<le> \<bar>x\<bar>" by (rule binade_le)
  moreover have "(2::real) powi (binade x - 52) \<le> 2 powi (binade x)"
    by (intro power_int_increasing) simp_all
  ultimately show ?thesis by linarith
qed

lemma round_double_cases:
  obtains (fin) y where "round_double x = Fin y"
      "y = of_int (round_half_even (x / 2 powi (binade x - 52))) * 2 powi (binade x - 52)"
      "\<bar>y\<bar> < 2 powi 1024"
    | (pinf) "round_double x = PInf" "0 < x"
    | (ninf) "round_double x = NInf" "x \<le> 0"
proof -
  let ?y = "real_of_int (round_half_even (x / 2 powi (binade x - 52))) * 2 powi (binade x - 52)"
  show thesis
  proof (cases "2 powi 1024 \<le> \<bar>?y\<bar>")
    case False
    then have "round_double x = Fin ?y" by (simp only: round_double_def Let_def if_False)
    moreover from False have "\<bar>?y\<bar> < 2 powi 1024" by (simp only: not_le)
    ultimately show ?thesis by (rule fin [OF _ refl])
  next
    case True
    then have r: "round_double x = (if 0 < x then PInf else NInf)"
      by (simp only: round_double_def Let_def if_True)
    show ?thesis
    proof (cases "0 < x")
      case True
      with r show ?thesis by (intro pinf) simp_all
    next
      case False
      with r show ?thesis by (intro ninf) simp_all
    qed
  qed
qed

lemma round_double_nonneg:
  assumes "0 \<le> x"
  shows "round_double x = PInf \<or> (\<exists>y. round_double x = Fin y \<and> 0 \<le> y)"
proof (cases x rule: round_double_cases)
  case (fin y)
  have "0 \<le> x / 2 powi (binade x - 52)"
    using assms ulp_pos [of x] by (intro divide_nonneg_pos)
  then have "0 \<le> round_half_even (x / 2 powi (binade x - 52))"
    by (intro round_half_even_ge) simp
  then have "0 \<le> y"
    unfolding fin(2) using ulp_pos [of x] by (intro mult_nonneg_nonneg) simp_all
  with fin(1) show ?thesis by blast
next
  case pinf
  then show ?thesis by blast
next
  case ninf
  with assms have x: "x = 0" by simp
  have "binade 0 = - 1022" by (rule binade_subnormal) simp
  then have "round_double 0 = Fin 0"
    by (simp add: round_double_def Let_def round_half_even_0)
  with ninf(1) x show ?thesis by simp
qed

lemma round_double_pos:
  assumes "2 powi (- 1074) \<le> x"
  shows "round_double x = PInf \<or> (\<exists>y. round_double x = Fin y \<and> 2 powi (- 1074) \<le> y)"
proof -
  have "(0::real) < 2 powi (- 1074)" by (rule zero_less_power_int) simp
  with assms have pos: "0 < x" by linarith
  show ?thesis
  proof (cases x rule: round_double_cases)
    case (fin y)
    have "2 powi (binade x - 52) \<le> x"
      using ulp_le_abs [of x] assms pos by simp
    then have "1 \<le> x / 2 powi (binade x - 52)"
      using ulp_pos [of x] by (simp only: pos_le_divide_eq mult_1)
    then have "1 \<le> round_half_even (x / 2 powi (binade x - 52))"
      by (intro round_half_even_ge) simp
    then have "1 * 2 powi (binade x - 52) \<le> y"
      unfolding fin(2) using ulp_pos [of x] by (intro mult_right_mono) simp_all
    with ulp_ge_min [of x] have "2 powi (- 1074) \<le> y" by linarith
    with fin(1) show ?thesis by blast
  next
    case pinf
    then show ?thesis by blast
  next
    case ninf
    with pos show ?thesis by simp
  qed
qed

lemma round_double_result_pos:
  assumes "round_double x = Fin c" "0 < c"
  shows "2 powi (- 1074) \<le> c"
proof (cases x rule: round_double_cases)
  case (fin y)
  with assms have c: "c = of_int (round_half_even (x / 2 powi (binade x - 52))) * 2 powi (binade x - 52)"
    by simp
  with assms(2) ulp_pos [of x]
  have "0 < real_of_int (round_half_even (x / 2 powi (binade x - 52)))"
    by (simp only: zero_less_mult_iff) linarith
  then have "1 \<le> round_half_even (x / 2 powi (binade x - 52))" by simp
  then have "1 * 2 powi (binade x - 52) \<le> c"
    unfolding c using ulp_pos [of x] by (intro mult_right_mono) simp_all
  with ulp_ge_min [of x] show ?thesis by linarith
next
  case pinf
  with assms show ?thesis by simp
next
  case ninf
  with assms show ?thesis by simp
qed

lemma round_double_0: "round_double 0 = Fin 0"
proof -
  have "binade 0 = - 1022" by (rule binade_subnormal) simp
  then show ?thesis by (simp add: round_double_def Let_def round_half_even_0)
qed

lemma round_double_at:
  "binade x = k \<Longrightarrow>
   round_double x =
     (let u = 2 powi (k - 52);
          y = of_int (round_half_even (x / u)) * u
      in if 2 powi 1024 \<le> \<bar>y\<bar> then (if 0 < x then PInf else NInf) else Fin y)"
  by (simp only: round_double_def)

lemma fle_round_double_nonneg: "0 \<le> x \<Longrightarrow> fle (Fin 0) (round_double x)"
  using round_double_nonneg [of x] by auto

lemma round_double_fin_nonneg: "0 \<le> x \<Longrightarrow> round_double x = Fin y \<Longrightarrow> 0 \<le> y"
  using round_double_nonneg [of x] by auto

lemma denorm_min_pos: "0 < denorm_min"
  unfolding denorm_min_def by (rule zero_less_power_int) simp

lemma denorm_min_le_1: "denorm_min \<le> 1"
proof -
  have "(2::real) powi (- 1074) \<le> 2 powi 0"
    by (intro power_int_increasing) simp_all
  then show ?thesis unfolding denorm_min_def by (simp only: power_int_0_right)
qed

lemma round_double_fin_pos:
  "denorm_min \<le> x \<Longrightarrow> round_double x = Fin y \<Longrightarrow> denorm_min \<le> y"
  unfolding denorm_min_def using round_double_pos [of x] by auto

lemma round_double_ne_0: "denorm_min \<le> x \<Longrightarrow> round_double x \<noteq> Fin 0"
proof
  assume a: "denorm_min \<le> x" "round_double x = Fin 0"
  then have "denorm_min \<le> 0" by (rule round_double_fin_pos)
  with denorm_min_pos show False by linarith
qed

lemma round_double_result_ge:
  "round_double x = Fin c \<Longrightarrow> 0 < c \<Longrightarrow> denorm_min \<le> c"
  unfolding denorm_min_def by (rule round_double_result_pos)

lemma is_double_pos_ge: "is_double v \<Longrightarrow> 0 < v \<Longrightarrow> denorm_min \<le> v"
  unfolding is_double_def by (rule round_double_result_ge)

lemma pi_double_ge_1: "1 \<le> pi_double"
  by (simp add: pi_double_def)

lemma pi_times_double_ge:
  assumes "is_double v" "0 < v"
  shows "denorm_min \<le> pi_double * v"
proof -
  have "1 * v \<le> pi_double * v"
    using pi_double_ge_1 assms(2) by (intro mult_right_mono) simp_all
  with is_double_pos_ge [OF assms] show ?thesis by linarith
qed

lemma sqrt_ge_min:
  assumes "denorm_min \<le> c"
  shows "denorm_min \<le> sqrt c"
proof (cases "1 \<le> c")
  case True
  then have "1 \<le> sqrt c" by simp
  with denorm_min_le_1 show ?thesis by linarith
next
  case False
  from assms denorm_min_pos have "0 < c" by linarith
  with False have "c \<le> sqrt c"
    by (intro real_le_rsqrt) (simp add: power2_eq_square mult_left_le)
  with assms show ?thesis by linarith
qed

lemma fsqrt_nonneg:
  assumes "fle (Fin 0) X"
  shows "\<exists>D. fsqrt X = Inr D \<and> fle (Fin 0) D"
proof (cases X)
  case (Fin c)
  with assms have "0 \<le> c" by simp
  then show ?thesis using Fin by (simp add: fle_round_double_nonneg not_less)
qed (use assms in simp_all)

subsection \<open>Doubles used below\<close>

lemma round_double_1: "round_double 1 = Fin 1"
proof -
  have "binade 1 = 0" by (rule binade_eq) simp_all
  from round_double_at [OF this] show ?thesis
    by (simp add: Let_def round_half_even_def)
qed

lemma round_double_4: "round_double 4 = Fin 4"
proof -
  have "binade 4 = 2" by (rule binade_eq) simp_all
  from round_double_at [OF this] show ?thesis
    by (simp add: Let_def round_half_even_def)
qed

lemma round_double_8: "round_double 8 = Fin 8"
proof -
  have "binade 8 = 3" by (rule binade_eq) simp_all
  from round_double_at [OF this] show ?thesis
    by (simp add: Let_def round_half_even_def)
qed

lemma round_double_denorm_min: "round_double denorm_min = Fin denorm_min"
proof -
  have "binade denorm_min = - 1022"
    unfolding denorm_min_def by (rule binade_subnormal) simp
  from round_double_at [OF this] show ?thesis
    by (simp add: Let_def round_half_even_def denorm_min_def)
qed

lemma round_double_4_denorm_min: "round_double (4 * denorm_min) = Fin (4 * denorm_min)"
proof -
  have "binade (4 * denorm_min) = - 1022"
    unfolding denorm_min_def by (rule binade_subnormal) simp
  from round_double_at [OF this] show ?thesis
    by (simp add: Let_def round_half_even_def denorm_min_def)
qed

lemma round_double_pi_4: "round_double (pi_double * 4) = Fin (pi_double * 4)"
proof -
  have "binade (pi_double * 4) = 3"
    unfolding pi_double_def by (rule binade_eq) simp_all
  from round_double_at [OF this] show ?thesis
    by (simp add: Let_def round_half_even_def pi_double_def)
qed

lemma round_double_pi_8: "round_double (pi_double * 8) = Fin (pi_double * 8)"
proof -
  have "binade (pi_double * 8) = 4"
    unfolding pi_double_def by (rule binade_eq) simp_all
  from round_double_at [OF this] show ?thesis
    by (simp add: Let_def round_half_even_def pi_double_def)
qed

lemma quotient_underflow_4:
  "round_double (4 * denorm_min / (pi_double * 4)) = Fin 0"
proof -
  have "binade (4 * denorm_min / (pi_double * 4)) = - 1022"
    unfolding denorm_min_def pi_double_def by (rule binade_subnormal) simp
  from round_double_at [OF this] show ?thesis
    by (simp add: Let_def round_half_even_def denorm_min_def pi_double_def)
qed

lemma quotient_underflow_8:
  "round_double (4 * denorm_min / (pi_double * 8)) = Fin 0"
proof -
  have "binade (4 * denorm_min / (pi_double * 8)) = - 1022"
    unfolding denorm_min_def pi_double_def by (rule binade_subnormal) simp
  from round_double_at [OF this] show ?thesis
    by (simp add: Let_def round_half_even_def denorm_min_def pi_double_def)
qed

lemma round_double_4_pi: "round_double (4 * pi_double) = Fin (4 * pi_double)"
  using round_double_pi_4 by (simp add: mult.commute)

lemma fmul_rho_g: "fmul (Fin 1000) (round_double 9.81) = Fin 9810"
proof -
  have "binade 9.81 = 3" by (rule binade_eq) simp_all
  from round_double_at [OF this] have g: "round_double 9.81 = Fin (5522539043063071 / 2 ^ 49)"
    by (simp add: Let_def round_half_even_def)
  have "binade (1000 * (5522539043063071 / 2 ^ 49)) = 13" by (rule binade_eq) simp_all
  from round_double_at [OF this]
  have "round_double (1000 * (5522539043063071 / 2 ^ 49)) = Fin 9810"
    by (simp add: Let_def round_half_even_def)
  with g show ?thesis by simp
qed

lemma tiny_pos: "0 < tiny"
  unfolding tiny_def by (rule zero_less_power_int) simp

lemma round_double_tiny: "round_double tiny = Fin tiny"
proof -
  have "binade tiny = - 600"
    unfolding tiny_def by (rule binade_eq) simp_all
  from round_double_at [OF this] show ?thesis
    by (simp add: Let_def round_half_even_def tiny_def)
qed

lemma round_double_9810_tiny: "round_double (9810 * tiny) = Fin (9810 * tiny)"
proof -
  have "binade (9810 * tiny) = - 587"
    unfolding tiny_def by (rule binade_eq) simp_all
  from round_double_at [OF this] show ?thesis
    by (simp add: Let_def round_half_even_def tiny_def)
qed

lemma product_underflow: "round_double (9810 * tiny * tiny) = Fin 0"
proof -
  have "binade (9810 * tiny * tiny) = - 1022"
    unfolding tiny_def by (rule binade_subnormal) simp
  from round_double_at [OF this] show ?thesis
    by (simp add: Let_def round_half_even_def tiny_def)
qed

lemma round_double_19620: "round_double (9810 * 2) = Fin 19620"
proof -
  have "binade (9810 * 2) = 14" by (rule binade_eq) simp_all
  from round_double_at [OF this] show ?thesis
    by (simp add: Let_def round_half_even_def)
qed

lemma round_double_58860: "round_double (19620 * 3) = Fin 58860"
proof -
  have "binade (19620 * 3) = 15" by (rule binade_eq) simp_all
  from round_double_at [OF this] show ?thesis
    by (simp add: Let_def round_half_even_def)
qed

subsection \<open>\<open>penstock_diameter\<close> on doubles\<close>

lemma penstock_diameter_f64_none_iff:
  "penstock_diameter_f64 Q v = Inr None \<longleftrightarrow> fle v (Fin 0)"
  by (simp add: penstock_diameter_f64_def split: sum.splits)

lemma penstock_diameter_f64_nonneg:
  assumes "is_double vr" "0 < vr" "0 \<le> q"
    "round_double (4 * q) \<noteq> PInf \<or> round_double (pi_double * vr) \<noteq> PInf"
  shows "\<exists>D. penstock_diameter_f64 (Fin q) (Fin vr) = Inr (Some D) \<and> fle (Fin 0) D"
proof -
  have guard: "\<not> fle (Fin vr) (Fin 0)" using assms(2) by simp
  have pv: "denorm_min \<le> pi_double * vr"
    using assms(1,2) by (rule pi_times_double_ge)
  have q4: "0 \<le> 4 * q" using assms(3) by simp
  consider a p where "round_double (4 * q) = Fin a" "round_double (pi_double * vr) = Fin p"
    | a where "round_double (4 * q) = Fin a" "round_double (pi_double * vr) = PInf"
    | p where "round_double (4 * q) = PInf" "round_double (pi_double * vr) = Fin p"
    using round_double_nonneg [OF q4] round_double_pos [of "pi_double * vr"] pv assms(4)
    unfolding denorm_min_def by blast
  then show ?thesis
  proof cases
    case 1
    have a: "0 \<le> a" using q4 1(1) by (rule round_double_fin_nonneg)
    have "denorm_min \<le> p" using pv 1(2) by (rule round_double_fin_pos)
    with denorm_min_pos have p: "0 < p" by linarith
    then have "0 \<le> a / p" using a by simp
    then have "fle (Fin 0) (round_double (a / p))" by (rule fle_round_double_nonneg)
    from fsqrt_nonneg [OF this] obtain D
      where "fsqrt (round_double (a / p)) = Inr D" "fle (Fin 0) D" by blast
    then show ?thesis
      using guard p 1 by (simp add: penstock_diameter_f64_def math_pi_def)
  next
    case 2
    then show ?thesis
      using guard by (simp add: penstock_diameter_f64_def math_pi_def round_double_0)
  next
    case 3
    have "denorm_min \<le> p" using pv 3(2) by (rule round_double_fin_pos)
    with denorm_min_pos have p: "0 < p" by linarith
    then show ?thesis
      using guard 3 by (simp add: penstock_diameter_f64_def math_pi_def)
  qed
qed

lemma penstock_diameter_f64_pos:
  assumes "is_double vr" "0 < vr" "0 < q"
    "round_double (4 * q) = Fin a" "round_double (pi_double * vr) = Fin p"
    "denorm_min \<le> a / p"
  shows "\<exists>D. penstock_diameter_f64 (Fin q) (Fin vr) = Inr (Some D) \<and>
           fle (Fin 0) D \<and> D \<noteq> Fin 0"
proof -
  have guard: "\<not> fle (Fin vr) (Fin 0)" using assms(2) by simp
  have pv: "denorm_min \<le> pi_double * vr"
    using assms(1,2) by (rule pi_times_double_ge)
  have "denorm_min \<le> p" using pv assms(5) by (rule round_double_fin_pos)
  with denorm_min_pos have p: "p \<noteq> 0" by linarith
  have quot: "fdiv (fmul (Fin 4) (Fin q)) (fmul math_pi (Fin vr)) = Inr (round_double (a / p))"
    using p assms(4,5) by (simp add: math_pi_def)
  from round_double_pos [of "a / p"] assms(6)
  consider "round_double (a / p) = PInf"
    | c where "round_double (a / p) = Fin c" "denorm_min \<le> c"
    unfolding denorm_min_def by blast
  then show ?thesis
  proof cases
    case 1
    then show ?thesis
      using guard quot by (simp add: penstock_diameter_f64_def)
  next
    case 2
    from 2(2) denorm_min_pos have c: "0 \<le> c" by linarith
    have s: "denorm_min \<le> sqrt c" using 2(2) by (rule sqrt_ge_min)
    then have nz: "round_double (sqrt c) \<noteq> Fin 0" by (rule round_double_ne_0)
    have "0 \<le> sqrt c" using c by simp
    then have nn: "fle (Fin 0) (round_double (sqrt c))" by (rule fle_round_double_nonneg)
    have "penstock_diameter_f64 (Fin q) (Fin vr) = Inr (Some (round_double (sqrt c)))"
      using guard quot 2(1) c by (simp add: penstock_diameter_f64_def not_less)
    with nz nn show ?thesis by blast
  qed
qed

section \<open>Properties\<close>

subsection \<open>Turbine classification\<close>

text \<open>
  C1. \<open>suggest_turbine\<close> is a total three-way classification of the net head: a head
  above 300 gives the Pelton label, a head from 50 to 300 (both included) the Francis
  label, and every other head, negative ones included, the Kaplan/Propeller label.
  The three labels are distinct, so each head has exactly one category. At the
  boundaries: 300 is Francis, 300.0001 is Pelton, 50 is Francis and 49.999 is
  Kaplan/Propeller.
\<close>

theorem suggest_turbine_classification:
  "(H > 300 \<longrightarrow> suggest_turbine H = Pelton) \<and>
   (50 \<le> H \<and> H \<le> 300 \<longrightarrow> suggest_turbine H = Francis) \<and>
   (\<not> H > 300 \<and> \<not> (50 \<le> H \<and> H \<le> 300) \<longrightarrow> suggest_turbine H = Kaplan) \<and>
   (H < 0 \<longrightarrow> suggest_turbine H = Kaplan) \<and>
   suggest_turbine H \<in> {Pelton, Francis, Kaplan} \<and>
   Pelton \<noteq> Francis \<and> Pelton \<noteq> Kaplan \<and> Francis \<noteq> Kaplan \<and>
   suggest_turbine 300 = Francis \<and>
   suggest_turbine 300.0001 = Pelton \<and>
   suggest_turbine 50 = Francis \<and>
   suggest_turbine 49.999 = Kaplan"
  by (simp add: suggest_turbine_def)

theorem suggest_turbine_classification_witness:
  "suggest_turbine 350 = Pelton \<and> suggest_turbine 120 = Francis \<and>
   suggest_turbine 20 = Kaplan \<and> suggest_turbine (- 5) = Kaplan"
  using suggest_turbine_classification [of 350]
    suggest_turbine_classification [of 120]
    suggest_turbine_classification [of 20]
    suggest_turbine_classification [of "- 5"]
  by simp

subsection \<open>Penstock diameter\<close>

text \<open>
  C2, as stated, fails in its second half: a positive discharge and a positive
  velocity do not always give a positive diameter. For the smallest positive double
  as discharge and a velocity of 4 the quotient \<open>4 Q / (pi v)\<close> is below half of the
  smallest positive double and rounds to \<^verbatim>\<open>0.0\<close>, so the diameter returned is
  \<^verbatim>\<open>0.0\<close>.
\<close>

theorem penstock_diameter_f64_underflow_counterexample:
  "is_double denorm_min \<and> 0 < denorm_min \<and> is_double 4 \<and>
   penstock_diameter_f64 (Fin denorm_min) (Fin 4) = Inr (Some (Fin 0))"
proof -
  have "penstock_diameter_f64 (Fin denorm_min) (Fin 4) = Inr (Some (Fin 0))"
  proof -
    have m1: "fmul (Fin 4) (Fin denorm_min) = Fin (4 * denorm_min)"
      by (simp add: round_double_4_denorm_min)
    have m2: "fmul math_pi (Fin 4) = Fin (pi_double * 4)"
      by (simp add: math_pi_def round_double_pi_4)
    have "pi_double * 4 \<noteq> 0" by (simp add: pi_double_def)
    then have d: "fdiv (Fin (4 * denorm_min)) (Fin (pi_double * 4)) = Inr (Fin 0)"
      by (simp only: fdiv.simps double.case if_False quotient_underflow_4)
    show ?thesis
      unfolding penstock_diameter_f64_def m1 m2 d by (simp add: round_double_0)
  qed
  then show ?thesis
    using denorm_min_pos round_double_denorm_min round_double_4
    by (simp add: is_double_def)
qed

text \<open>
  C2, amended. \<open>penstock_diameter\<close> returns \<^verbatim>\<open>None\<close> if and only if its velocity
  argument is at most zero (for every double, NaN and the infinities included). For
  a positive double velocity and a positive discharge it returns a present diameter
  \<open>D\<close> with \<open>D >= 0\<close>, provided the products \<open>4 Q\<close> and \<open>pi v\<close> do not both
  overflow to infinity. The diameter is not zero whenever the quotient of the two
  rounded products \<open>a\<close> and \<open>p\<close> is at least the smallest positive double; only
  below that can it underflow to \<^verbatim>\<open>0.0\<close>.
\<close>

theorem penstock_diameter_f64_present:
  "(penstock_diameter_f64 Q v = Inr None \<longleftrightarrow> fle v (Fin 0)) \<and>
   (is_double vr \<and> 0 < vr \<and> 0 < q \<and>
    (round_double (4 * q) \<noteq> PInf \<or> round_double (pi_double * vr) \<noteq> PInf) \<longrightarrow>
      (\<exists>D. penstock_diameter_f64 (Fin q) (Fin vr) = Inr (Some D) \<and> fle (Fin 0) D)) \<and>
   (is_double vr \<and> 0 < vr \<and> 0 < q \<and>
    round_double (4 * q) = Fin a \<and> round_double (pi_double * vr) = Fin p \<and>
    denorm_min \<le> a / p \<longrightarrow>
      (\<exists>D. penstock_diameter_f64 (Fin q) (Fin vr) = Inr (Some D) \<and>
           fle (Fin 0) D \<and> D \<noteq> Fin 0))"
  using penstock_diameter_f64_none_iff [of Q v] penstock_diameter_f64_nonneg [of vr q]
    penstock_diameter_f64_pos [of vr q a p]
  by simp

theorem penstock_diameter_f64_present_witness:
  "penstock_diameter_f64 (Fin 1) (Fin 0) = Inr None \<and>
   penstock_diameter_f64 (Fin 1) (Fin 4) \<noteq> Inr None \<and>
   (\<exists>D. penstock_diameter_f64 (Fin pi_double) (Fin 4) = Inr (Some D) \<and>
        fle (Fin 0) D \<and> D \<noteq> Fin 0)"
proof -
  have "4 * pi_double / (pi_double * 4) = 1" by (simp add: pi_double_def)
  with denorm_min_le_1 have "denorm_min \<le> 4 * pi_double / (pi_double * 4)" by simp
  then have "is_double 4 \<and> (0::real) < 4 \<and> 0 < pi_double \<and>
    round_double (4 * pi_double) = Fin (4 * pi_double) \<and>
    round_double (pi_double * 4) = Fin (pi_double * 4) \<and>
    denorm_min \<le> 4 * pi_double / (pi_double * 4)"
    using round_double_4 round_double_4_pi round_double_pi_4
    by (simp add: is_double_def pi_double_def)
  with penstock_diameter_f64_present
    [of "Fin 1" "Fin 4" 4 pi_double "4 * pi_double" "pi_double * 4"]
  have "\<exists>D. penstock_diameter_f64 (Fin pi_double) (Fin 4) = Inr (Some D) \<and>
        fle (Fin 0) D \<and> D \<noteq> Fin 0"
    by blast
  then show ?thesis
    using penstock_diameter_f64_present
        [of "Fin 1" "Fin 0" 4 pi_double "4 * pi_double" "pi_double * 4"]
      penstock_diameter_f64_present
        [of "Fin 1" "Fin 4" 4 pi_double "4 * pi_double" "pi_double * 4"]
    by simp
qed

text \<open>
  C3, as stated, fails in its last part: the diameter can be zero although the
  discharge is not. For the smallest positive double as discharge and a velocity of 8
  the quotient rounds to \<^verbatim>\<open>0.0\<close> and so does its root.
\<close>

theorem penstock_diameter_f64_zero_counterexample:
  "is_double denorm_min \<and> denorm_min \<noteq> 0 \<and> is_double 8 \<and>
   penstock_diameter_f64 (Fin denorm_min) (Fin 8) = Inr (Some (Fin 0))"
proof -
  have "penstock_diameter_f64 (Fin denorm_min) (Fin 8) = Inr (Some (Fin 0))"
  proof -
    have m1: "fmul (Fin 4) (Fin denorm_min) = Fin (4 * denorm_min)"
      by (simp add: round_double_4_denorm_min)
    have m2: "fmul math_pi (Fin 8) = Fin (pi_double * 8)"
      by (simp add: math_pi_def round_double_pi_8)
    have "pi_double * 8 \<noteq> 0" by (simp add: pi_double_def)
    then have d: "fdiv (Fin (4 * denorm_min)) (Fin (pi_double * 8)) = Inr (Fin 0)"
      by (simp only: fdiv.simps double.case if_False quotient_underflow_8)
    show ?thesis
      unfolding penstock_diameter_f64_def m1 m2 d by (simp add: round_double_0)
  qed
  then show ?thesis
    using denorm_min_pos round_double_denorm_min round_double_8
    by (simp add: is_double_def)
qed

text \<open>
  C3, amended. For a positive double velocity and a discharge that is not negative,
  with the products \<open>4 Q\<close> (rounded to \<open>a\<close>) and \<open>pi v\<close> (rounded to \<open>p\<close>) and
  their quotient (rounded to \<open>c\<close>) finite, \<open>penstock_diameter\<close> raises nothing and
  returns the correctly rounded square root of \<open>c\<close>, that is
  \<open>sqrt (4 Q / (pi v))\<close> evaluated in double arithmetic. This value is not negative.
  It is zero if and only if the rounded quotient \<open>c\<close> is zero, which is the case when
  the discharge is zero and is excluded whenever \<open>a / p\<close> is at least the smallest
  positive double; below that the quotient can underflow to zero.
\<close>

theorem penstock_diameter_f64_value:
  assumes "is_double vr" "0 < vr" "0 \<le> q"
    "round_double (4 * q) = Fin a" "round_double (pi_double * vr) = Fin p"
    "round_double (a / p) = Fin c"
  shows "penstock_diameter_f64 (Fin q) (Fin vr) = Inr (Some (round_double (sqrt c))) \<and>
         fle (Fin 0) (round_double (sqrt c)) \<and>
         (round_double (sqrt c) = Fin 0 \<longleftrightarrow> c = 0) \<and>
         (q = 0 \<longrightarrow> c = 0) \<and>
         (denorm_min \<le> a / p \<longrightarrow> c \<noteq> 0)"
proof -
  have guard: "\<not> fle (Fin vr) (Fin 0)" using assms(2) by simp
  have pv: "denorm_min \<le> pi_double * vr"
    using assms(1,2) by (rule pi_times_double_ge)
  have "denorm_min \<le> p" using pv assms(5) by (rule round_double_fin_pos)
  with denorm_min_pos have p: "0 < p" by linarith
  have q4: "0 \<le> 4 * q" using assms(3) by simp
  have a: "0 \<le> a" using q4 assms(4) by (rule round_double_fin_nonneg)
  have ap: "0 \<le> a / p" using a p by simp
  have c: "0 \<le> c" by (rule round_double_fin_nonneg [OF ap assms(6)])
  have val: "penstock_diameter_f64 (Fin q) (Fin vr) = Inr (Some (round_double (sqrt c)))"
    using guard p c assms(4,5,6)
    by (simp add: penstock_diameter_f64_def math_pi_def not_less)
  have nonneg: "fle (Fin 0) (round_double (sqrt c))"
    using c by (intro fle_round_double_nonneg) simp
  have zero: "round_double (sqrt c) = Fin 0 \<longleftrightarrow> c = 0"
  proof
    assume r: "round_double (sqrt c) = Fin 0"
    show "c = 0"
    proof (rule ccontr)
      assume "c \<noteq> 0"
      with c have "0 < c" by simp
      with assms(6) have "denorm_min \<le> c" by (rule round_double_result_ge)
      then have "denorm_min \<le> sqrt c" by (rule sqrt_ge_min)
      then have "round_double (sqrt c) \<noteq> Fin 0" by (rule round_double_ne_0)
      with r show False by simp
    qed
  next
    assume "c = 0"
    then show "round_double (sqrt c) = Fin 0" by (simp add: round_double_0)
  qed
  have q0: "q = 0 \<longrightarrow> c = 0"
  proof
    assume "q = 0"
    with assms(4) have "a = 0" by (simp add: round_double_0)
    with assms(6) show "c = 0" by (simp add: round_double_0)
  qed
  have pos: "denorm_min \<le> a / p \<longrightarrow> c \<noteq> 0"
  proof
    assume "denorm_min \<le> a / p"
    then have "denorm_min \<le> c" using assms(6) by (rule round_double_fin_pos)
    with denorm_min_pos show "c \<noteq> 0" by linarith
  qed
  from val nonneg zero q0 pos show ?thesis by blast
qed

theorem penstock_diameter_f64_value_witness:
  "penstock_diameter_f64 (Fin pi_double) (Fin 4) = Inr (Some (Fin 1)) \<and>
   penstock_diameter_f64 (Fin 0) (Fin 4) = Inr (Some (Fin 0))"
proof -
  have d: "is_double 4" using round_double_4 by (simp add: is_double_def)
  have q1: "round_double (4 * pi_double / (pi_double * 4)) = Fin 1"
    using round_double_1 by (simp add: pi_double_def)
  have "penstock_diameter_f64 (Fin pi_double) (Fin 4) = Inr (Some (round_double (sqrt 1)))"
    using penstock_diameter_f64_value [OF d _ _ round_double_4_pi round_double_pi_4 q1]
    by (simp add: pi_double_def)
  moreover have z: "round_double (4 * 0) = Fin 0" by (simp add: round_double_0)
  have q0: "round_double (0 / (pi_double * 4)) = Fin 0" by (simp add: round_double_0)
  have "penstock_diameter_f64 (Fin 0) (Fin 4) = Inr (Some (round_double (sqrt 0)))"
    using penstock_diameter_f64_value [OF d _ _ z round_double_pi_4 q0] by simp
  ultimately show ?thesis using round_double_1 by (simp add: round_double_0)
qed

subsection \<open>Exceptions\<close>

text \<open>
  C4, as stated, fails: with a positive velocity and a negative discharge the
  quotient under the square root is negative and \<^verbatim>\<open>math.sqrt\<close> raises
  \<^verbatim>\<open>ValueError\<close>, which \<open>penstock_diameter\<close> does not catch.
\<close>

theorem penstock_diameter_raises_counterexample:
  "penstock_diameter (- 1) 1 = Inl ValueError"
  by (simp add: penstock_diameter_negative_discharge)

text \<open>
  C4, amended. Whenever the velocity is at most zero or the discharge is not
  negative, \<open>penstock_diameter\<close> raises nothing: it returns a value, which is
  \<^verbatim>\<open>None\<close> exactly when the velocity is at most zero. The other helper functions
  are products and comparisons of floats and cannot raise. Hence the whole pipeline
  and the results section run without an exception for every input whose velocity is
  at most zero or whose discharge is not negative; the discharge widget, with its
  minimum of zero, admits no other input.
\<close>

theorem core_no_exception:
  "(v_mps \<le> 0 \<or> 0 \<le> Q_m3s \<longrightarrow>
      (\<exists>D. penstock_diameter Q_m3s v_mps = Inr D \<and> (D = None \<longleftrightarrow> v_mps \<le> 0))) \<and>
   (in_v_fps i \<le> 0 \<or> 0 \<le> in_Q_cusec i \<longrightarrow>
      (\<exists>r. compute i = Inr r) \<and> (\<exists>els. app i = Inr els))"
proof (intro conjI impI)
  assume "v_mps \<le> 0 \<or> 0 \<le> Q_m3s"
  then show "\<exists>D. penstock_diameter Q_m3s v_mps = Inr D \<and> (D = None \<longleftrightarrow> v_mps \<le> 0)"
    by (cases "v_mps \<le> 0")
      (simp_all add: penstock_diameter_guard penstock_diameter_nonneg_discharge)
next
  assume a: "in_v_fps i \<le> 0 \<or> 0 \<le> in_Q_cusec i"
  show c: "\<exists>r. compute i = Inr r"
  proof (cases "in_v_fps i \<le> 0")
    case True
    then show ?thesis by (simp add: compute_guard)
  next
    case False
    with a show ?thesis by (simp add: compute_nonneg_discharge)
  qed
  then obtain r where "compute i = Inr r" ..
  then show "\<exists>els. app i = Inr els"
    using render_total [of i r] by (simp add: app_def)
qed

theorem core_no_exception_witness:
  "(\<exists>D. penstock_diameter 0 (- 1) = Inr D \<and> D = None) \<and>
   (\<exists>D. penstock_diameter 3 2 = Inr D \<and> D \<noteq> None) \<and>
   (\<exists>r. compute scenario1 = Inr r) \<and> (\<exists>els. app scenario1 = Inr els)"
  using core_no_exception [of "- 1" 0 scenario1] core_no_exception [of 2 3 scenario1]
  by (simp add: scenario1_def)

subsection \<open>The penstock message\<close>

text \<open>
  C5 says that a numeric diameter is displayed whenever the velocity is positive and
  that the error message appears only for a velocity that is at most zero. The script
  breaks this at a discharge of zero, which the discharge widget admits: the velocity
  is positive, the diameter is the float zero, and the page shows the error message
  "Invalid velocity selected." in place of the diameter. The other results are
  displayed as usual.
\<close>

theorem zero_discharge_shows_velocity_error:
  "widget_bounds zero_discharge \<and>
   0 < fps_to_mps (in_v_fps zero_discharge) \<and>
   app zero_discharge =
     Inr [Subheader ''Results'',
          Metric ''Hydraulic Power (theoretical)'' 0,
          Caption ''P = rho g Q H'',
          Metric ''Electrical Output Power'' 0,
          Caption ''P_out = P x eta_t x eta_g'',
          Markdown ''### Electrical Power in MW'',
          Write_MW 0,
          Markdown ''### Penstock Pipe Diameter'',
          Error ''Invalid velocity selected.'',
          Markdown ''### Suggested Turbine Type'',
          Info Kaplan]"
proof -
  have "compute zero_discharge =
     Inr \<lparr>res_Q_m3s = 0, res_v_mps = 1.8288, res_P_hydraulic_W = 0, res_P_actual_W = 0,
          res_D_penstock = Some 0\<rparr>"
    using compute_nonneg_discharge [of zero_discharge]
    by (simp add: zero_discharge_def cusec_to_m3s_def fps_to_mps_def hydraulic_power_def
        actual_power_def)
  then have "app zero_discharge =
     Inr [Subheader ''Results'',
          Metric ''Hydraulic Power (theoretical)'' 0,
          Caption ''P = rho g Q H'',
          Metric ''Electrical Output Power'' 0,
          Caption ''P_out = P x eta_t x eta_g'',
          Markdown ''### Electrical Power in MW'',
          Write_MW 0,
          Markdown ''### Penstock Pipe Diameter'',
          Error ''Invalid velocity selected.'',
          Markdown ''### Suggested Turbine Type'',
          Info Kaplan]"
    by (simp add: app_def render_def penstock_display_cases zero_discharge_def
        suggest_turbine_def)
  moreover have "widget_bounds zero_discharge"
    by (simp add: widget_bounds_def zero_discharge_def)
  moreover have "0 < fps_to_mps (in_v_fps zero_discharge)"
    by (simp add: fps_to_mps_def zero_discharge_def)
  ultimately show ?thesis by simp
qed

subsection \<open>Powers\<close>

text \<open>
  C6, as stated, fails in its last part: the hydraulic power can be zero although
  neither the discharge nor the head is. For a discharge and a head of \<open>2 powi (- 600)\<close>
  the product \<open>9810 * Q * H\<close> is far below the smallest positive double and rounds to
  \<^verbatim>\<open>0.0\<close>.
\<close>

theorem hydraulic_power_f64_underflow_counterexample:
  "is_double tiny \<and> 0 < tiny \<and>
   hydraulic_power_f64 (Fin 1000) (round_double 9.81) (Fin tiny) (Fin tiny) = Fin 0"
proof -
  have "hydraulic_power_f64 (Fin 1000) (round_double 9.81) (Fin tiny) (Fin tiny) =
      fmul (fmul (Fin 9810) (Fin tiny)) (Fin tiny)"
    unfolding hydraulic_power_f64_def fmul_rho_g by (rule refl)
  also have "\<dots> = fmul (Fin (9810 * tiny)) (Fin tiny)"
    by (simp only: fmul.simps round_double_9810_tiny)
  also have "\<dots> = Fin 0"
    by (simp only: fmul.simps product_underflow)
  finally show ?thesis
    using tiny_pos round_double_tiny by (simp add: is_double_def)
qed

text \<open>
  C6, amended. \<open>hydraulic_power\<close> returns \<open>rho * g * Q * H\<close>, multiplied from the
  left in double arithmetic, and the pipeline calls it with \<open>rho = 1000\<close> and
  \<open>g = 9.81\<close>. With these constants, a discharge and a head that are not negative
  and a product \<open>9810 * Q\<close> that does not overflow (it rounds to the finite \<open>t\<close>),
  the result is the rounded product \<open>t * H\<close>; it is \<open>>= 0\<close>; it is zero if the
  discharge or the head is zero; and it is not zero whenever \<open>t * H\<close> is at least
  the smallest positive double. Below that the product can underflow to zero. The
  call with the two constants is read off the pipeline model \<open>compute\<close>.
\<close>

theorem hydraulic_power_f64_sign:
  "hydraulic_power_f64 rho g Q H = fmul (fmul (fmul rho g) Q) H \<and>
   (compute i = Inr r \<longrightarrow>
      res_P_hydraulic_W r =
        hydraulic_power 1000 9.81 (cusec_to_m3s (in_Q_cusec i)) (in_H_m i)) \<and>
   (0 \<le> q \<and> 0 \<le> h \<and> round_double (9810 * q) = Fin t \<longrightarrow>
      hydraulic_power_f64 (Fin 1000) (round_double 9.81) (Fin q) (Fin h) =
        round_double (t * h) \<and>
      fle (Fin 0) (round_double (t * h)) \<and>
      (q = 0 \<or> h = 0 \<longrightarrow> round_double (t * h) = Fin 0) \<and>
      (denorm_min \<le> t * h \<longrightarrow> round_double (t * h) \<noteq> Fin 0))"
proof (intro conjI impI)
  show "hydraulic_power_f64 rho g Q H = fmul (fmul (fmul rho g) Q) H"
    by (simp add: hydraulic_power_f64_def)
next
  assume "compute i = Inr r"
  then show "res_P_hydraulic_W r =
        hydraulic_power 1000 9.81 (cusec_to_m3s (in_Q_cusec i)) (in_H_m i)"
    using compute_powers [of i r] by simp
next
  assume a: "0 \<le> q \<and> 0 \<le> h \<and> round_double (9810 * q) = Fin t"
  then have t: "0 \<le> t"
    using round_double_fin_nonneg [of "9810 * q" t] by simp
  show "hydraulic_power_f64 (Fin 1000) (round_double 9.81) (Fin q) (Fin h) =
        round_double (t * h)"
    unfolding hydraulic_power_f64_def fmul_rho_g using a by simp
  show "fle (Fin 0) (round_double (t * h))"
    using a t by (intro fle_round_double_nonneg mult_nonneg_nonneg) simp_all
  show "round_double (t * h) = Fin 0" if "q = 0 \<or> h = 0"
    using that a by (auto simp: round_double_0)
  show "round_double (t * h) \<noteq> Fin 0" if "denorm_min \<le> t * h"
    using that by (rule round_double_ne_0)
qed

theorem hydraulic_power_f64_sign_witness:
  "hydraulic_power_f64 (Fin 1000) (round_double 9.81) (Fin 2) (Fin 3) = Fin 58860 \<and>
   hydraulic_power_f64 (Fin 1000) (round_double 9.81) (Fin 2) (Fin 0) = Fin 0 \<and>
   (\<exists>r. compute scenario1 = Inr r \<and> res_P_hydraulic_W r = 555575.616)"
proof -
  obtain r where r: "compute scenario1 = Inr r"
    using compute_nonneg_discharge [of scenario1] by (simp add: scenario1_def)
  have "res_P_hydraulic_W r = 555575.616"
    using hydraulic_power_f64_sign [of "Fin 1000" "round_double 9.81" "Fin 2" "Fin 3" scenario1 r 2 3 19620] r
    by (simp add: scenario1_def hydraulic_power_def cusec_to_m3s_def)
  moreover have "(0::real) \<le> 2 \<and> (0::real) \<le> 3 \<and> round_double (9810 * 2) = Fin 19620"
    using round_double_19620 by simp
  with hydraulic_power_f64_sign [of "Fin 1000" "round_double 9.81" "Fin 2" "Fin 3" scenario1 r 2 3 19620]
  have "hydraulic_power_f64 (Fin 1000) (round_double 9.81) (Fin 2) (Fin 3) =
      round_double (19620 * 3)" by blast
  moreover have "(0::real) \<le> 2 \<and> (0::real) \<le> 0 \<and> round_double (9810 * 2) = Fin 19620"
    using round_double_19620 by simp
  with hydraulic_power_f64_sign [of "Fin 1000" "round_double 9.81" "Fin 2" "Fin 3" scenario1 r 2 0 19620]
  have "round_double (19620 * 0) = Fin 0 \<and>
    hydraulic_power_f64 (Fin 1000) (round_double 9.81) (Fin 2) (Fin 0) =
      round_double (19620 * 0)" by blast
  ultimately show ?thesis
    using r round_double_58860 by auto
qed

text \<open>
  C7. \<open>actual_power\<close> returns exactly the hydraulic power times the two
  efficiencies. Its first argument is the hydraulic power, which is never negative:
  for efficiencies in \<open>(0, 1]\<close> and such a power the result does not exceed the
  hydraulic power. In the pipeline, within the bounds of the widgets, the hydraulic
  power is not negative and the electrical power does not exceed it.
\<close>

theorem actual_power_le_hydraulic:
  "actual_power P eta_turbine eta_generator = P * eta_turbine * eta_generator \<and>
   (0 \<le> P \<and> 0 < eta_turbine \<and> eta_turbine \<le> 1 \<and>
    0 < eta_generator \<and> eta_generator \<le> 1 \<longrightarrow>
      actual_power P eta_turbine eta_generator \<le> P) \<and>
   (widget_bounds i \<and> compute i = Inr r \<longrightarrow>
      0 \<le> res_P_hydraulic_W r \<and>
      res_P_actual_W r =
        actual_power (res_P_hydraulic_W r)
          (real_of_int (in_eta_turbine_pct i) / 100)
          (real_of_int (in_eta_generator_pct i) / 100) \<and>
      res_P_actual_W r \<le> res_P_hydraulic_W r)"
proof (intro conjI impI)
  show "actual_power P eta_turbine eta_generator = P * eta_turbine * eta_generator"
    by (simp add: actual_power_def)
next
  assume "0 \<le> P \<and> 0 < eta_turbine \<and> eta_turbine \<le> 1 \<and>
    0 < eta_generator \<and> eta_generator \<le> 1"
  then show "actual_power P eta_turbine eta_generator \<le> P"
    by (simp add: actual_power_def efficiency_product_le)
next
  assume a: "widget_bounds i \<and> compute i = Inr r"
  then show "0 \<le> res_P_hydraulic_W r"
    using pipeline_electrical_le_hydraulic [of i r] by blast
  from a show "res_P_actual_W r =
        actual_power (res_P_hydraulic_W r)
          (real_of_int (in_eta_turbine_pct i) / 100)
          (real_of_int (in_eta_generator_pct i) / 100)"
    using compute_powers [of i r] by blast
  from a show "res_P_actual_W r \<le> res_P_hydraulic_W r"
    using pipeline_electrical_le_hydraulic [of i r] by blast
qed

theorem actual_power_le_hydraulic_witness:
  "actual_power 1000 (85 / 100) (90 / 100) = 765 \<and>
   actual_power 1000 (85 / 100) (90 / 100) \<le> 1000 \<and>
   (\<exists>r. compute scenario1 = Inr r \<and> 0 \<le> res_P_hydraulic_W r \<and>
        res_P_actual_W r \<le> res_P_hydraulic_W r)"
proof -
  obtain r where r: "compute scenario1 = Inr r"
    using compute_nonneg_discharge [of scenario1] by (simp add: scenario1_def)
  have w: "widget_bounds scenario1"
    by (simp add: widget_bounds_def scenario1_def)
  have "0 \<le> res_P_hydraulic_W r \<and> res_P_actual_W r \<le> res_P_hydraulic_W r"
    using actual_power_le_hydraulic [of 1000 "85 / 100" "90 / 100" scenario1 r] w r
    by blast
  with r show ?thesis
    using actual_power_le_hydraulic [of 1000 "85 / 100" "90 / 100" scenario1 r]
    by simp
qed

subsection \<open>Unit conversion\<close>

text \<open>
  C8. The unit converters are exact linear scalings without clamping:
  \<open>cusec_to_m3s\<close> multiplies by 0.0283168 (for every discharge, so for every one
  that is not negative) and \<open>fps_to_mps\<close> multiplies by 0.3048 for every real
  velocity, zero and negative ones included. Both are additive and homogeneous.
\<close>

theorem unit_converters_linear:
  "cusec_to_m3s cusec = cusec * 0.0283168 \<and>
   fps_to_mps ftPerSec = ftPerSec * 0.3048 \<and>
   cusec_to_m3s (a + b) = cusec_to_m3s a + cusec_to_m3s b \<and>
   cusec_to_m3s (k * a) = k * cusec_to_m3s a \<and>
   fps_to_mps (a + b) = fps_to_mps a + fps_to_mps b \<and>
   fps_to_mps (k * a) = k * fps_to_mps a \<and>
   fps_to_mps 0 = 0 \<and> fps_to_mps (- 1) = - 0.3048"
  by (simp add: cusec_to_m3s_def fps_to_mps_def algebra_simps)

subsection \<open>The default inputs end to end\<close>

text \<open>
  C9, as stated, fails in its figures. For a discharge of 100 cusec, a velocity of
  6 ft/s, a head of 20 m and efficiencies 0.85 and 0.90, the hydraulic power
  \<open>1000 * 9.81 * 2.83168 * 20\<close> is 555575.616 W, more than 117 W away from the
  stated 555458.5 W; the electrical power is more than 89 W away from the stated
  424925.8 W; and the diameter exceeds 1.404 m, so it is not 1.403 m to three
  decimals.
\<close>

theorem scenario1_stated_figures_counterexample:
  "hydraulic_power 1000 9.81 (cusec_to_m3s 100) 20 = 555575.616 \<and>
   \<not> \<bar>hydraulic_power 1000 9.81 (cusec_to_m3s 100) 20 - 555458.5\<bar> \<le> 117 \<and>
   \<not> \<bar>actual_power (hydraulic_power 1000 9.81 (cusec_to_m3s 100) 20) 0.85 0.90
        - 424925.8\<bar> \<le> 89 \<and>
   penstock_diameter (cusec_to_m3s 100) (fps_to_mps 6) =
     Inr (Some (sqrt (4 * 2.83168 / (pi * 1.8288)))) \<and>
   \<not> \<bar>sqrt (4 * 2.83168 / (pi * 1.8288)) - 1.403\<bar> \<le> 0.001"
proof -
  have h: "hydraulic_power 1000 9.81 (cusec_to_m3s 100) 20 = 555575.616"
    by (simp add: hydraulic_power_def cusec_to_m3s_def)
  have h_far: "\<not> \<bar>hydraulic_power 1000 9.81 (cusec_to_m3s 100) 20 - 555458.5\<bar> \<le> 117"
    unfolding h by simp
  have a_far: "\<not> \<bar>actual_power (hydraulic_power 1000 9.81 (cusec_to_m3s 100) 20) 0.85 0.90
        - 424925.8\<bar> \<le> 89"
    unfolding h by (simp add: actual_power_def)
  have d: "penstock_diameter (cusec_to_m3s 100) (fps_to_mps 6) =
      Inr (Some (sqrt (4 * 2.83168 / (pi * 1.8288))))"
    using penstock_diameter_nonneg_discharge [of "fps_to_mps 6" "cusec_to_m3s 100"]
    by (simp add: cusec_to_m3s_def fps_to_mps_def)
  have d_far: "\<not> \<bar>sqrt (4 * 2.83168 / (pi * 1.8288)) - 1.403\<bar> \<le> 0.001"
    using scenario1_diameter_bounds(1) by simp
  show ?thesis
    using h h_far a_far d d_far by blast
qed

text \<open>
  C9, amended. For the same inputs the converted values are 2.83168 m3/s and
  1.8288 m/s; the hydraulic power is \<open>1000 * 9.81 * 2.83168 * 20 = 555575.616\<close> W
  (555575.6 to one decimal); the electrical power is 425015.34624 W (425015.3 to one
  decimal, 0.425 MW to three); the penstock diameter is
  \<open>sqrt (4 * 2.83168 / (pi * 1.8288))\<close>, which is 1.404 m to three decimals; and
  the page shows this diameter and the Kaplan/Propeller recommendation.
\<close>

theorem scenario1_figures:
  "compute scenario1 =
     Inr \<lparr>res_Q_m3s = 2.83168, res_v_mps = 1.8288,
          res_P_hydraulic_W = 1000 * 9.81 * 2.83168 * 20,
          res_P_actual_W = 425015.34624,
          res_D_penstock = Some (sqrt (4 * 2.83168 / (pi * 1.8288)))\<rparr> \<and>
   (1000 * 9.81 * 2.83168 * 20 :: real) = 555575.616 \<and>
   \<bar>1000 * 9.81 * 2.83168 * 20 - 555575.6 :: real\<bar> \<le> 0.05 \<and>
   \<bar>425015.34624 - 425015.3 :: real\<bar> \<le> 0.05 \<and>
   \<bar>425015.34624 / 1000000 - 0.425 :: real\<bar> \<le> 0.0005 \<and>
   \<bar>sqrt (4 * 2.83168 / (pi * 1.8288)) - 1.404\<bar> \<le> 0.0005 \<and>
   suggest_turbine (in_H_m scenario1) = Kaplan \<and>
   app scenario1 =
     Inr [Subheader ''Results'',
          Metric ''Hydraulic Power (theoretical)'' 555.575616,
          Caption ''P = rho g Q H'',
          Metric ''Electrical Output Power'' 425.01534624,
          Caption ''P_out = P x eta_t x eta_g'',
          Markdown ''### Electrical Power in MW'',
          Write_MW 0.42501534624,
          Markdown ''### Penstock Pipe Diameter'',
          Success (sqrt (4 * 2.83168 / (pi * 1.8288))) 1.8288,
          Markdown ''### Suggested Turbine Type'',
          Info Kaplan]"
proof -
  have c: "compute scenario1 =
     Inr \<lparr>res_Q_m3s = 2.83168, res_v_mps = 1.8288,
          res_P_hydraulic_W = 555575.616, res_P_actual_W = 425015.34624,
          res_D_penstock = Some (sqrt (4 * 2.83168 / (pi * 1.8288)))\<rparr>"
    using compute_nonneg_discharge [of scenario1]
    by (simp add: scenario1_def cusec_to_m3s_def fps_to_mps_def hydraulic_power_def
        actual_power_def)
  have c': "compute scenario1 =
     Inr \<lparr>res_Q_m3s = 2.83168, res_v_mps = 1.8288,
          res_P_hydraulic_W = 1000 * 9.81 * 2.83168 * 20,
          res_P_actual_W = 425015.34624,
          res_D_penstock = Some (sqrt (4 * 2.83168 / (pi * 1.8288)))\<rparr>"
    unfolding c by simp
  have nz: "sqrt (4 * 2.83168 / (pi * 1.8288)) \<noteq> 0"
    using scenario1_diameter_bounds(1) by simp
  have "app scenario1 =
     render scenario1
       \<lparr>res_Q_m3s = 2.83168, res_v_mps = 1.8288,
        res_P_hydraulic_W = 555575.616, res_P_actual_W = 425015.34624,
        res_D_penstock = Some (sqrt (4 * 2.83168 / (pi * 1.8288)))\<rparr>"
    by (simp add: app_def c)
  also have "\<dots> =
     Inr [Subheader ''Results'',
          Metric ''Hydraulic Power (theoretical)'' 555.575616,
          Caption ''P = rho g Q H'',
          Metric ''Electrical Output Power'' 425.01534624,
          Caption ''P_out = P x eta_t x eta_g'',
          Markdown ''### Electrical Power in MW'',
          Write_MW 0.42501534624,
          Markdown ''### Penstock Pipe Diameter'',
          Success (sqrt (4 * 2.83168 / (pi * 1.8288))) 1.8288,
          Markdown ''### Suggested Turbine Type'',
          Info Kaplan]"
    using nz
    by (simp add: render_def penstock_display_cases scenario1_def suggest_turbine_def)
  finally have a: "app scenario1 =
     Inr [Subheader ''Results'',
          Metric ''Hydraulic Power (theoretical)'' 555.575616,
          Caption ''P = rho g Q H'',
          Metric ''Electrical Output Power'' 425.01534624,
          Caption ''P_out = P x eta_t x eta_g'',
          Markdown ''### Electrical Power in MW'',
          Write_MW 0.42501534624,
          Markdown ''### Penstock Pipe Diameter'',
          Success (sqrt (4 * 2.83168 / (pi * 1.8288))) 1.8288,
          Markdown ''### Suggested Turbine Type'',
          Info Kaplan]" .
  have d: "\<bar>sqrt (4 * 2.83168 / (pi * 1.8288)) - 1.404\<bar> \<le> 0.0005"
    using scenario1_diameter_bounds by simp
  have t: "suggest_turbine (in_H_m scenario1) = Kaplan"
    by (simp add: scenario1_def suggest_turbine_def)
  have n1: "(1000 * 9.81 * 2.83168 * 20 :: real) = 555575.616" by simp
  have n2: "\<bar>1000 * 9.81 * 2.83168 * 20 - 555575.6 :: real\<bar> \<le> 0.05" by simp
  have n3: "\<bar>425015.34624 - 425015.3 :: real\<bar> \<le> 0.05" by simp
  have n4: "\<bar>425015.34624 / 1000000 - 0.425 :: real\<bar> \<le> 0.0005" by simp
  show ?thesis
    using c' n1 n2 n3 n4 d t a by blast
qed

subsection \<open>Zero discharge\<close>

text \<open>
  C10. The display branch tests the diameter by truthiness, which does not tell the
  float zero from \<^verbatim>\<open>None\<close>. For a discharge of zero and a positive velocity
  \<open>penstock_diameter\<close> returns the float zero, so the page shows the message
  "Invalid velocity selected." and no diameter.
\<close>

theorem zero_discharge_renders_error:
  assumes "0 < v_mps" "in_Q_cusec i = 0" "0 < in_v_fps i"
  shows "penstock_diameter 0 v_mps = Inr (Some 0) \<and>
         truthy (Some 0) = truthy None \<and>
         penstock_display (Some 0) v_mps = Inr (Error ''Invalid velocity selected.'') \<and>
         penstock_display (Some 0) v_mps = penstock_display None v_mps \<and>
         app i =
           Inr [Subheader ''Results'',
                Metric ''Hydraulic Power (theoretical)'' 0,
                Caption ''P = rho g Q H'',
                Metric ''Electrical Output Power'' 0,
                Caption ''P_out = P x eta_t x eta_g'',
                Markdown ''### Electrical Power in MW'',
                Write_MW 0,
                Markdown ''### Penstock Pipe Diameter'',
                Error ''Invalid velocity selected.'',
                Markdown ''### Suggested Turbine Type'',
                Info (suggest_turbine (in_H_m i))]"
proof -
  have p: "penstock_diameter 0 v_mps = Inr (Some 0)"
    using assms(1) by (simp add: penstock_diameter_nonneg_discharge)
  have "compute i =
     Inr \<lparr>res_Q_m3s = 0, res_v_mps = fps_to_mps (in_v_fps i),
          res_P_hydraulic_W = 0, res_P_actual_W = 0, res_D_penstock = Some 0\<rparr>"
    using compute_nonneg_discharge [of i] assms(2,3)
    by (simp add: cusec_to_m3s_def hydraulic_power_def actual_power_def)
  then have "app i =
           Inr [Subheader ''Results'',
                Metric ''Hydraulic Power (theoretical)'' 0,
                Caption ''P = rho g Q H'',
                Metric ''Electrical Output Power'' 0,
                Caption ''P_out = P x eta_t x eta_g'',
                Markdown ''### Electrical Power in MW'',
                Write_MW 0,
                Markdown ''### Penstock Pipe Diameter'',
                Error ''Invalid velocity selected.'',
                Markdown ''### Suggested Turbine Type'',
                Info (suggest_turbine (in_H_m i))]"
    by (simp add: app_def render_def penstock_display_cases)
  with p show ?thesis by (simp add: penstock_display_cases)
qed

theorem zero_discharge_renders_error_witness:
  "penstock_diameter 0 3.048 = Inr (Some 0) \<and>
   penstock_display (Some 0) 3.048 = Inr (Error ''Invalid velocity selected.'') \<and>
   app dry_high_head =
     Inr [Subheader ''Results'',
          Metric ''Hydraulic Power (theoretical)'' 0,
          Caption ''P = rho g Q H'',
          Metric ''Electrical Output Power'' 0,
          Caption ''P_out = P x eta_t x eta_g'',
          Markdown ''### Electrical Power in MW'',
          Write_MW 0,
          Markdown ''### Penstock Pipe Diameter'',
          Error ''Invalid velocity selected.'',
          Markdown ''### Suggested Turbine Type'',
          Info Pelton]"
proof -
  have "0 < (3.048::real)" "in_Q_cusec dry_high_head = 0" "0 < in_v_fps dry_high_head"
    by (simp_all add: dry_high_head_def)
  from zero_discharge_renders_error [OF this]
  show ?thesis by (simp add: dry_high_head_def suggest_turbine_def)
qed

end
